theory Spec2Isabelle
  imports Main
begin

section \<open>The history buffer of src/index.ts\<close>

text \<open>
  \<^verbatim>\<open>createHistory<T>(options)\<close> closes over five variables and returns an object whose
  methods read and assign them. The closure is modelled as a record that every
  operation takes and returns.

  The entry type \<open>T\<close> is the type variable \<open>'a\<close>, compared with HOL equality where the
  source uses \<^verbatim>\<open>===\<close>. A slot that may hold \<^verbatim>\<open>undefined\<close> (a variable declared without
  an initialiser, an optional field of the options object, a read past the end of the
  array) is an \<open>option\<close>, \<open>None\<close> being \<^verbatim>\<open>undefined\<close>. The documentation of \<^verbatim>\<open>maxSize\<close>
  calls it a "maximum number of entries", so the \<^verbatim>\<open>number\<close> is taken to be an integer;
  zero and negative values are kept. \<^verbatim>\<open>_index\<close> is an integer that starts at \<open>-1\<close>.
  \<^verbatim>\<open>null\<close> is told apart from \<^verbatim>\<open>undefined\<close> where the source treats them differently:
  in the \<^verbatim>\<open>validate\<close> option, which \<^verbatim>\<open>setOptions\<close> stores unless it is \<^verbatim>\<open>undefined\<close> and
  \<^verbatim>\<open>add\<close> calls. A \<^verbatim>\<open>null\<close> default value is stored and returned like any other value,
  so it counts among the values of \<open>'a\<close>.
\<close>

subsection \<open>Data\<close>

text \<open>What the variable \<^verbatim>\<open>_validate\<close> can hold: a function, or \<^verbatim>\<open>null\<close> when the options gave
  \<^verbatim>\<open>validate: null\<close> (\<^verbatim>\<open>typeof null\<close> is \<^verbatim>\<open>"object"\<close>, so \<^verbatim>\<open>setOptions\<close> stores it).\<close>

datatype 'a validator = Null | Function "'a \<Rightarrow> bool"

text \<open>\<^verbatim>\<open>IHistoryOptions<T>\<close>. The check \<^verbatim>\<open>options.maxSize == null\<close> of \<^verbatim>\<open>setOptions\<close> shows that
  the field may be missing at run time although the interface declares it; for
  \<^verbatim>\<open>maxSize\<close>, \<open>None\<close> is \<^verbatim>\<open>null\<close> or \<^verbatim>\<open>undefined\<close>, which that check does not tell apart.
  For \<^verbatim>\<open>defaultValue\<close> and \<^verbatim>\<open>validate\<close>, \<open>None\<close> is \<^verbatim>\<open>undefined\<close>.\<close>

record 'a options =
  maxSize :: "int option"
  defaultValue :: "'a option"
  validate :: "'a validator option"

text \<open>The variables \<^verbatim>\<open>_maxSize\<close>, \<^verbatim>\<open>_defaultValue\<close>, \<^verbatim>\<open>_validate\<close>, \<^verbatim>\<open>_index\<close> and \<^verbatim>\<open>_entries\<close>.\<close>

record 'a history =
  s_maxSize :: "int option"
  s_defaultValue :: "'a option"
  s_validate :: "'a validator"
  s_index :: int
  s_entries :: "'a list"

text \<open>\<^verbatim>\<open>new Error("Options must specify maxSize.")\<close>, the only \<^verbatim>\<open>throw\<close> of the file, and
  the \<^verbatim>\<open>TypeError\<close> that the call \<^verbatim>\<open>_validate(entry)\<close> raises when \<^verbatim>\<open>_validate\<close> is not a
  function.\<close>

datatype error = Error string | TypeError

definition missingMaxSize :: error where
  "missingMaxSize = Error ''Options must specify maxSize.''"

subsection \<open>Array primitives\<close>

text \<open>\<^verbatim>\<open>_entries[i]\<close>: \<^verbatim>\<open>undefined\<close> past the end.\<close>

definition at :: "'a list \<Rightarrow> nat \<Rightarrow> 'a option" where
  "at xs i = (if i < length xs then Some (xs ! i) else None)"

text \<open>\<^verbatim>\<open>_entries.splice(i, 1)\<close> for \<open>i \<ge> 0\<close>: removes the element at \<open>i\<close>, nothing when
  \<open>i\<close> is past the end.\<close>

definition splice1 :: "nat \<Rightarrow> 'a list \<Rightarrow> 'a list" where
  "splice1 i xs = take i xs @ drop (Suc i) xs"

text \<open>\<^verbatim>\<open>_entries.shift()\<close>: removes the first element, nothing on the empty array.\<close>

definition shift :: "'a list \<Rightarrow> 'a list" where
  "shift xs = (case xs of [] \<Rightarrow> [] | _ # ys \<Rightarrow> ys)"

text \<open>\<^verbatim>\<open>_entries.push(entry)\<close>.\<close>

definition push :: "'a \<Rightarrow> 'a list \<Rightarrow> 'a list" where
  "push e xs = xs @ [e]"

subsection \<open>Cursor movement\<close>

text \<open>Each function of \<^verbatim>\<open>move\<close> returns its boolean together with the state it leaves.\<close>

definition moveFirst :: "'a history \<Rightarrow> bool \<times> 'a history" where
  "moveFirst s =
     (if length (s_entries s) = 0 then (False, s\<lparr>s_index := -1\<rparr>)
      else (True, s\<lparr>s_index := 0\<rparr>))"

definition moveLast :: "'a history \<Rightarrow> bool \<times> 'a history" where
  "moveLast s =
     (if length (s_entries s) = 0 then (False, s\<lparr>s_index := -1\<rparr>)
      else (True, s\<lparr>s_index := int (length (s_entries s)) - 1\<rparr>))"

definition movePastLast :: "'a history \<Rightarrow> bool \<times> 'a history" where
  "movePastLast s =
     (if length (s_entries s) = 0 then (False, s\<lparr>s_index := -1\<rparr>)
      else (True, s\<lparr>s_index := int (length (s_entries s))\<rparr>))"

definition movePrev :: "'a history \<Rightarrow> bool \<times> 'a history" where
  "movePrev s =
     (if s_index s \<le> 0 then (False, s)
      else (True, s\<lparr>s_index := s_index s - 1\<rparr>))"

definition moveNext :: "'a history \<Rightarrow> bool \<times> 'a history" where
  "moveNext s =
     (if s_index s = int (length (s_entries s)) then (False, s)
      else (True, s\<lparr>s_index := s_index s + 1\<rparr>))"

subsection \<open>Options\<close>

text \<open>\<^verbatim>\<open>setOptions\<close> returns how the call ended (\<open>Inl\<close> the thrown error) together with the
  variables as the call leaves them. An argument that is \<^verbatim>\<open>null\<close> or \<^verbatim>\<open>undefined\<close> is
  \<open>None\<close>. The first \<^verbatim>\<open>typeof\<close> test cannot fail after the \<^verbatim>\<open>== null\<close> test. The last
  one lets \<^verbatim>\<open>null\<close> through: \<open>Some Null\<close> is stored like a function.\<close>

definition setOptions :: "'a options option \<Rightarrow> 'a history \<Rightarrow> (error + unit) \<times> 'a history" where
  "setOptions opts s =
     (case opts of
        None \<Rightarrow> (Inl missingMaxSize, s)
      | Some opt \<Rightarrow>
          (case maxSize opt of
             None \<Rightarrow> (Inl missingMaxSize, s)
           | Some m \<Rightarrow>
               let s1 = s\<lparr>s_maxSize := Some m\<rparr>;
                   s2 = (case defaultValue opt of None \<Rightarrow> s1
                         | Some d \<Rightarrow> s1\<lparr>s_defaultValue := Some d\<rparr>);
                   s3 = (case validate opt of None \<Rightarrow> s2
                         | Some v \<Rightarrow> s2\<lparr>s_validate := v\<rparr>)
               in (Inr (), s3)))"

subsection \<open>Reading\<close>

definition current :: "'a history \<Rightarrow> 'a option" where
  "current s =
     (if length (s_entries s) > 0 \<and> s_index s \<ge> 0 \<and> s_index s < int (length (s_entries s))
      then at (s_entries s) (nat (s_index s))
      else s_defaultValue s)"

definition length_h :: "'a history \<Rightarrow> nat" where
  "length_h s = length (s_entries s)"

subsection \<open>Insertion\<close>

text \<open>The loop \<^verbatim>\<open>for (let i = _entries.length; i >= 0; --i)\<close> of \<^verbatim>\<open>add\<close>, entered at \<open>i\<close>.
  Its first round reads \<^verbatim>\<open>_entries[_entries.length]\<close>, which is \<^verbatim>\<open>undefined\<close>; were
  \<^verbatim>\<open>undefined\<close> itself the entry, the \<^verbatim>\<open>splice\<close> at that index would remove nothing.\<close>

fun removeDupes :: "'a \<Rightarrow> nat \<Rightarrow> 'a list \<Rightarrow> 'a list" where
  "removeDupes entry 0 xs = (if at xs 0 = Some entry then splice1 0 xs else xs)"
| "removeDupes entry (Suc i) xs =
     removeDupes entry i (if at xs (Suc i) = Some entry then splice1 (Suc i) xs else xs)"

text \<open>The call \<^verbatim>\<open>_validate(entry)\<close>: calling \<^verbatim>\<open>null\<close> raises a \<^verbatim>\<open>TypeError\<close>.\<close>

definition callValidate :: "'a validator \<Rightarrow> 'a \<Rightarrow> error + bool" where
  "callValidate v entry = (case v of Null \<Rightarrow> Inl TypeError | Function f \<Rightarrow> Inr (f entry))"

text \<open>\<^verbatim>\<open>_entries.length >= _maxSize\<close>. A comparison with \<^verbatim>\<open>undefined\<close> is false.\<close>

definition atCapacity :: "'a list \<Rightarrow> int option \<Rightarrow> bool" where
  "atCapacity xs m = (case m of None \<Rightarrow> False | Some k \<Rightarrow> int (length xs) \<ge> k)"

text \<open>\<^verbatim>\<open>add\<close> returns how the call ended together with the variables as it leaves them.
  The call of \<^verbatim>\<open>_validate\<close> is its first statement, so an error raised there leaves the
  variables as they were.\<close>

definition add :: "'a \<Rightarrow> 'a history \<Rightarrow> (error + unit) \<times> 'a history" where
  "add entry s =
     (case callValidate (s_validate s) entry of
        Inl err \<Rightarrow> (Inl err, s)
      | Inr ok \<Rightarrow>
          if \<not> ok then (Inr (), s\<lparr>s_index := int (length (s_entries s))\<rparr>)
          else
            let xs1 = removeDupes entry (length (s_entries s)) (s_entries s);
                xs2 = (if atCapacity xs1 (s_maxSize s) then shift xs1 else xs1);
                xs3 = push entry xs2
            in (Inr (), snd (movePastLast (s\<lparr>s_entries := xs3\<rparr>))))"

subsection \<open>Construction\<close>

text \<open>The variables as \<^verbatim>\<open>createHistory\<close> declares them, before \<^verbatim>\<open>setOptions(options)\<close> runs.
  \<^verbatim>\<open>_entries\<close> is declared after that call, which does not touch it.\<close>

definition initial :: "'a history" where
  "initial = \<lparr>s_maxSize = None, s_defaultValue = None, s_validate = Function (\<lambda>_. True),
              s_index = -1, s_entries = []\<rparr>"

text \<open>An error thrown by \<^verbatim>\<open>setOptions\<close> leaves \<^verbatim>\<open>createHistory\<close>; no buffer is returned.\<close>

definition createHistory :: "'a options option \<Rightarrow> error + 'a history" where
  "createHistory opts =
     (case setOptions opts initial of
        (Inl e, _) \<Rightarrow> Inl e
      | (Inr _, s) \<Rightarrow> Inr (s\<lparr>s_entries := []\<rparr>))"

subsection \<open>The interface as calls\<close>

text \<open>One constructor for each member of \<^verbatim>\<open>IHistory<T>\<close>, and what a call returns.\<close>

datatype 'a call =
    Add 'a
  | Options "'a options option"
  | Current
  | Length
  | MoveFirst
  | MoveLast
  | MovePastLast
  | MovePrev
  | MoveNext

datatype 'a ret = Void | Value "'a option" | Number nat | Boolean bool

fun invoke :: "'a call \<Rightarrow> 'a history \<Rightarrow> (error + 'a ret) \<times> 'a history" where
  "invoke (Add e) s =
     (case add e s of
        (Inl err, s') \<Rightarrow> (Inl err, s')
      | (Inr _, s') \<Rightarrow> (Inr Void, s'))"
| "invoke (Options opts) s =
     (case setOptions opts s of
        (Inl err, s') \<Rightarrow> (Inl err, s')
      | (Inr _, s') \<Rightarrow> (Inr Void, s'))"
| "invoke Current s = (Inr (Value (current s)), s)"
| "invoke Length s = (Inr (Number (length_h s)), s)"
| "invoke MoveFirst s = (case moveFirst s of (b, s') \<Rightarrow> (Inr (Boolean b), s'))"
| "invoke MoveLast s = (case moveLast s of (b, s') \<Rightarrow> (Inr (Boolean b), s'))"
| "invoke MovePastLast s = (case movePastLast s of (b, s') \<Rightarrow> (Inr (Boolean b), s'))"
| "invoke MovePrev s = (case movePrev s of (b, s') \<Rightarrow> (Inr (Boolean b), s'))"
| "invoke MoveNext s = (case moveNext s of (b, s') \<Rightarrow> (Inr (Boolean b), s'))"

text \<open>A caller making the calls one after the other, catching whatever is thrown.\<close>

definition run :: "'a call list \<Rightarrow> 'a history \<Rightarrow> 'a history" where
  "run cs s = foldl (\<lambda>st c. snd (invoke c st)) s cs"

text \<open>A caller adding the entries of a list in order, catching whatever is thrown.\<close>

definition addAll :: "'a list \<Rightarrow> 'a history \<Rightarrow> 'a history" where
  "addAll es s = foldl (\<lambda>st e. snd (add e st)) s es"

subsection \<open>Buffers of the test suite\<close>

text \<open>The tests build their buffers with \<^verbatim>\<open>createHistory<string>({ maxSize: m })\<close>. These are
  the options object of such a call and the variables it leaves (see
  \<open>createHistory_onlyMaxSize\<close>).\<close>

abbreviation onlyMaxSize :: "int \<Rightarrow> string options" where
  "onlyMaxSize m \<equiv> \<lparr>maxSize = Some m, defaultValue = None, validate = None\<rparr>"

abbreviation fresh :: "int \<Rightarrow> string history" where
  "fresh m \<equiv> \<lparr>s_maxSize = Some m, s_defaultValue = None, s_validate = Function (\<lambda>_. True),
              s_index = - 1, s_entries = []\<rparr>"

subsection \<open>Invariants used in the proofs\<close>

text \<open>The capacity is \<open>m\<close>, at most \<open>m\<close> entries are stored and no entry occurs twice.\<close>

definition bounded :: "int \<Rightarrow> 'a history \<Rightarrow> bool" where
  "bounded m s =
     (s_maxSize s = Some m \<and> int (length (s_entries s)) \<le> m \<and> distinct (s_entries s))"

text \<open>The cursor is between \<open>-1\<close> and the number of entries.\<close>

definition cursorInRange :: "'a history \<Rightarrow> bool" where
  "cursorInRange s = (- 1 \<le> s_index s \<and> s_index s \<le> int (length (s_entries s)))"

section \<open>Auxiliary facts\<close>

lemmas eval_defs = createHistory_def setOptions_def initial_def addAll_def run_def add_def
  movePastLast_def moveFirst_def moveLast_def movePrev_def moveNext_def
  atCapacity_def shift_def push_def at_def splice1_def length_h_def current_def Let_def
  callValidate_def

subsection \<open>The loop that removes duplicates is a filter\<close>

lemma removeDupes_filter:
  "removeDupes e i xs = filter (\<lambda>x. x \<noteq> e) (take (Suc i) xs) @ drop (Suc i) xs"
proof (induction i arbitrary: xs)
  case 0
  show ?case by (cases xs) (auto simp: at_def splice1_def)
next
  case (Suc i)
  show ?case
  proof (cases "Suc i < length xs")
    case True
    then have tk: "take (Suc (Suc i)) xs = take (Suc i) xs @ [xs ! Suc i]"
      by (simp add: take_Suc_conv_app_nth)
    from True have dr: "drop (Suc i) xs = xs ! Suc i # drop (Suc (Suc i)) xs"
      by (simp add: Cons_nth_drop_Suc)
    from True show ?thesis
      by (simp add: Suc.IH at_def splice1_def tk dr)
  next
    case False
    then show ?thesis
      by (simp add: Suc.IH at_def)
  qed
qed

lemma removeDupes_length:
  "removeDupes e (length xs) xs = filter (\<lambda>x. x \<noteq> e) xs"
  by (simp add: removeDupes_filter)

subsection \<open>What add computes\<close>

lemma add_result:
  "fst (add e s) = (if s_validate s = Null then Inl TypeError else Inr ())"
  by (cases "s_validate s") (simp_all add: add_def callValidate_def Let_def)

lemma add_raises:
  "callValidate (s_validate s) e = Inl err \<Longrightarrow> add e s = (Inl err, s)"
  by (simp add: add_def)

lemma add_invalid:
  "callValidate (s_validate s) e = Inr False \<Longrightarrow>
   add e s = (Inr (), s\<lparr>s_index := int (length (s_entries s))\<rparr>)"
  by (simp add: add_def)

lemma add_valid_entries:
  "callValidate (s_validate s) e = Inr True \<Longrightarrow>
   s_entries (snd (add e s)) =
     (if atCapacity (filter (\<lambda>x. x \<noteq> e) (s_entries s)) (s_maxSize s)
      then shift (filter (\<lambda>x. x \<noteq> e) (s_entries s))
      else filter (\<lambda>x. x \<noteq> e) (s_entries s)) @ [e]"
  by (simp add: add_def removeDupes_length movePastLast_def push_def Let_def)

lemma callValidate_cases:
  "callValidate v e = Inl TypeError \<or> callValidate v e = Inr False \<or>
   callValidate v e = Inr True"
  by (cases v) (simp_all add: callValidate_def)

lemma add_index:
  "fst (add e s) = Inr () \<Longrightarrow>
   s_index (snd (add e s)) = int (length (s_entries (snd (add e s))))"
  by (cases "s_validate s")
    (simp_all add: add_def callValidate_def movePastLast_def push_def Let_def)

lemma add_settings:
  "s_maxSize (snd (add e s)) = s_maxSize s"
  "s_validate (snd (add e s)) = s_validate s"
  "s_defaultValue (snd (add e s)) = s_defaultValue s"
  by (cases "s_validate s";
      simp add: add_def callValidate_def movePastLast_def push_def Let_def)+

lemma shift_tl: "shift xs = tl xs"
  by (cases xs) (simp_all add: shift_def)

lemma addAll_snoc: "addAll (es @ [e]) s = snd (add e (addAll es s))"
  by (simp add: addAll_def)

lemma addAll_settings:
  "s_maxSize (addAll es s) = s_maxSize s"
  "s_validate (addAll es s) = s_validate s"
  "s_defaultValue (addAll es s) = s_defaultValue s"
  by (induction es rule: rev_induct)
    (simp_all add: addAll_snoc add_settings, simp_all add: addAll_def)

subsection \<open>The capacity step removes at most one entry\<close>

text \<open>A valid entry is always stored, whatever \<^verbatim>\<open>_maxSize\<close> is.\<close>

lemma add_valid_nonempty:
  "callValidate (s_validate s) e = Inr True \<Longrightarrow> 0 < length (s_entries (snd (add e s)))"
  by (simp add: add_valid_entries)

text \<open>With as many entries as \<^verbatim>\<open>_maxSize\<close> or more, a new valid entry replaces the oldest
  one and the number of entries stays what it was.\<close>

lemma add_new_full_same_length:
  assumes "callValidate (s_validate s) e = Inr True" and "e \<notin> set (s_entries s)"
    and "s_maxSize s = Some m"
    and "m \<le> int (length (s_entries s))" and "s_entries s \<noteq> []"
  shows "s_entries (snd (add e s)) = tl (s_entries s) @ [e]"
    and "length (s_entries (snd (add e s))) = length (s_entries s)"
proof -
  from assms(2) have flt: "filter (\<lambda>x. x \<noteq> e) (s_entries s) = s_entries s"
    by (simp add: filter_id_conv) metis
  from assms(3,4) have "atCapacity (s_entries s) (s_maxSize s)"
    by (simp add: atCapacity_def)
  with assms(1) show eq: "s_entries (snd (add e s)) = tl (s_entries s) @ [e]"
    by (simp add: add_valid_entries flt shift_tl)
  from assms(5) show "length (s_entries (snd (add e s))) = length (s_entries s)"
    by (simp add: eq)
qed

subsection \<open>Created buffers\<close>

lemma createHistory_Inr:
  "createHistory opts = Inr s \<Longrightarrow>
   \<exists>opt m. opts = Some opt \<and> maxSize opt = Some m \<and>
     s = \<lparr>s_maxSize = Some m, s_defaultValue = defaultValue opt,
          s_validate = (case validate opt of None \<Rightarrow> Function (\<lambda>_. True) | Some v \<Rightarrow> v),
          s_index = -1, s_entries = []\<rparr>"
  by (auto simp: createHistory_def setOptions_def initial_def Let_def split: option.splits)

lemma createHistory_onlyMaxSize: "createHistory (Some (onlyMaxSize m)) = Inr (fresh m)"
  by (simp add: createHistory_def setOptions_def initial_def)

subsection \<open>The size bound is kept by add\<close>

lemma add_bounded:
  assumes "0 < m" and "bounded m s"
  shows "bounded m (snd (add e s))"
proof -
  consider (raises) "callValidate (s_validate s) e = Inl TypeError"
    | (invalid) "callValidate (s_validate s) e = Inr False"
    | (valid) "callValidate (s_validate s) e = Inr True"
    using callValidate_cases [of "s_validate s" e] by blast
  then show ?thesis
  proof cases
    case raises
    with assms show ?thesis by (simp add: add_raises)
  next
    case invalid
    with assms show ?thesis by (simp add: add_invalid bounded_def)
  next
    case valid
    let ?xs = "filter (\<lambda>x. x \<noteq> e) (s_entries s)"
    have "length ?xs \<le> length (s_entries s)" by (rule length_filter_le)
    moreover have "int (length (s_entries s)) \<le> m" using assms(2) by (simp add: bounded_def)
    ultimately have len: "int (length ?xs) \<le> m" by linarith
    have d: "distinct ?xs" using assms(2) by (simp add: bounded_def)
    have e: "e \<notin> set ?xs" by simp
    show ?thesis
    proof (cases "atCapacity ?xs (s_maxSize s)")
      case cap: True
      with assms have "?xs \<noteq> []" by (auto simp: atCapacity_def bounded_def)
      then have "int (length (tl ?xs)) + 1 \<le> m"
        using len by (cases ?xs) auto
      moreover have "distinct (tl ?xs)" using d by (rule distinct_tl)
      moreover have "e \<notin> set (tl ?xs)" using e by (metis list.set_sel(2) tl_Nil)
      ultimately show ?thesis using valid cap assms(2)
        by (simp add: bounded_def add_valid_entries add_settings shift_tl)
    next
      case nocap: False
      with assms have "int (length ?xs) < m" by (simp add: atCapacity_def bounded_def)
      then show ?thesis using valid nocap assms(2) d
        by (simp add: bounded_def add_valid_entries add_settings)
    qed
  qed
qed

lemma addAll_bounded: "0 < m \<Longrightarrow> bounded m s \<Longrightarrow> bounded m (addAll es s)"
  by (induction es rule: rev_induct)
    (simp_all add: addAll_snoc add_bounded, simp add: addAll_def)

subsection \<open>Distinct valid entries added to a fresh buffer\<close>

lemma addAll_fresh_distinct:
  assumes "s_maxSize s = Some m" and "0 < m" and "s_entries s = []"
    and "distinct es" and "\<forall>e\<in>set es. callValidate (s_validate s) e = Inr True"
  shows "s_entries (addAll es s) = drop (length es - nat m) es"
  using assms(4,5)
proof (induction es rule: rev_induct)
  case Nil
  show ?case using assms(3) by (simp add: addAll_def)
next
  case (snoc e es)
  let ?k = "length es - nat m"
  from snoc have IH: "s_entries (addAll es s) = drop ?k es" by simp
  from snoc.prems have "e \<notin> set es" by simp
  then have "e \<notin> set (drop ?k es)" by (auto dest: in_set_dropD)
  then have flt: "filter (\<lambda>x. x \<noteq> e) (drop ?k es) = drop ?k es"
    by (simp add: filter_id_conv) metis
  from snoc.prems have val: "callValidate (s_validate (addAll es s)) e = Inr True"
    by (simp add: addAll_settings)
  have ms: "s_maxSize (addAll es s) = Some m" using assms(1) by (simp add: addAll_settings)
  have step: "s_entries (addAll (es @ [e]) s) =
      (if atCapacity (drop ?k es) (Some m) then shift (drop ?k es) else drop ?k es) @ [e]"
    by (simp only: addAll_snoc add_valid_entries [OF val] IH flt ms)
  show ?case
  proof (cases "nat m \<le> length es")
    case True
    with assms(2) have cap: "atCapacity (drop ?k es) (Some m)"
      by (simp add: atCapacity_def)
    from True assms(2) have k: "Suc ?k \<le> length es" "Suc (length es) - nat m = Suc ?k"
      by linarith+
    have "tl (drop ?k es) = drop (Suc ?k) es" by (simp add: drop_Suc tl_drop)
    with k show ?thesis
      by (simp add: step cap shift_tl)
  next
    case False
    with assms(2) have nocap: "\<not> atCapacity (drop ?k es) (Some m)"
      by (simp add: atCapacity_def)
    from False have "?k = 0" by simp
    with nocap have "\<not> atCapacity es (Some m)" by simp
    with False show ?thesis
      by (simp add: step)
  qed
qed

subsection \<open>Adding an entry that is already stored\<close>

text \<open>Holds at capacity too: removing the stored occurrence frees the room.\<close>

lemma add_present_entries:
  assumes "callValidate (s_validate s) e = Inr True" and "e \<in> set (s_entries s)"
    and "s_maxSize s = Some m" and "int (length (s_entries s)) \<le> m"
  shows "s_entries (snd (add e s)) = filter (\<lambda>x. x \<noteq> e) (s_entries s) @ [e]"
proof -
  have "length (filter (\<lambda>x. x \<noteq> e) (s_entries s)) < length (s_entries s)"
    using assms(2) by (rule length_filter_less) simp
  with assms(4) have "\<not> atCapacity (filter (\<lambda>x. x \<noteq> e) (s_entries s)) (Some m)"
    by (simp add: atCapacity_def)
  with assms(1,3) show ?thesis by (simp add: add_valid_entries)
qed

subsection \<open>Options and the cursor\<close>

text \<open>\<^verbatim>\<open>setOptions\<close> assigns neither \<^verbatim>\<open>_entries\<close> nor \<^verbatim>\<open>_index\<close>, however it ends.\<close>

lemma setOptions_keeps:
  "s_entries (snd (setOptions opts s)) = s_entries s"
  "s_index (snd (setOptions opts s)) = s_index s"
  by (simp_all add: setOptions_def Let_def split: option.splits)

lemma invoke_cursorInRange:
  "cursorInRange s \<Longrightarrow> cursorInRange (snd (invoke c s))"
proof (cases c)
  case (Add e)
  assume inv: "cursorInRange s"
  have "cursorInRange (snd (add e s))"
  proof (cases "s_validate s = Null")
    case True
    with inv show ?thesis by (simp add: add_raises callValidate_def)
  next
    case False
    then have "fst (add e s) = Inr ()" by (simp add: add_result)
    then show ?thesis by (simp add: cursorInRange_def add_index)
  qed
  with Add show ?thesis
    by (cases "add e s") (simp split: sum.splits)
next
  case (Options opts)
  assume "cursorInRange s"
  then have "cursorInRange (snd (setOptions opts s))"
    by (simp add: cursorInRange_def setOptions_keeps)
  with Options show ?thesis
    by (cases "setOptions opts s") (simp split: sum.splits)
qed (auto simp: cursorInRange_def movePrev_def moveNext_def moveFirst_def moveLast_def
       movePastLast_def)

lemma run_snoc: "run (cs @ [c]) s = snd (invoke c (run cs s))"
  by (simp add: run_def)

lemma run_cursorInRange: "cursorInRange s \<Longrightarrow> cursorInRange (run cs s)"
  by (induction cs rule: rev_induct)
    (simp_all add: run_snoc invoke_cursorInRange, simp add: run_def)

subsection \<open>When the stored validate is null\<close>




section \<open>The claims\<close>

subsection \<open>C1: size bound and absence of duplicates\<close>

text \<open>
  Claim C1. For a buffer created with a positive \<open>maxSize\<close>, after any sequence of
  \<open>add\<close> calls (valid or not, repeated or not) the number of entries is at most
  \<open>maxSize\<close> and no entry is stored twice. The list \<open>es\<close> is arbitrary, so the
  statement covers the state after every call of a sequence.
\<close>

theorem add_sequence_bounded_distinct:
  assumes "createHistory (Some opt) = Inr s0" and "maxSize opt = Some m" and "0 < m"
  shows "int (length (s_entries (addAll es s0))) \<le> m \<and> distinct (s_entries (addAll es s0))"
proof -
  from assms have "bounded m s0"
    by (auto dest!: createHistory_Inr simp: bounded_def)
  with assms(3) have "bounded m (addAll es s0)" by (rule addAll_bounded)
  then show ?thesis by (simp add: bounded_def)
qed

theorem add_sequence_bounded_distinct_witness:
  "createHistory (Some (onlyMaxSize 2)) = Inr (fresh 2) \<and>
   maxSize (onlyMaxSize 2) = Some 2 \<and> (0::int) < 2 \<and>
   int (length (s_entries (addAll [''a'', ''b'', ''a'', ''c''] (fresh 2)))) \<le> 2 \<and>
   distinct (s_entries (addAll [''a'', ''b'', ''a'', ''c''] (fresh 2)))"
proof -
  have h1: "createHistory (Some (onlyMaxSize 2)) = Inr (fresh 2)"
    by (rule createHistory_onlyMaxSize)
  have h2: "maxSize (onlyMaxSize 2) = Some 2" by simp
  have h3: "(0::int) < 2" by simp
  show ?thesis
    using h1 h2 h3 add_sequence_bounded_distinct [OF h1 h2 h3, of "[''a'', ''b'', ''a'', ''c'']"]
    by simp
qed

subsection \<open>C2: the oldest entries are evicted first\<close>

text \<open>
  Claim C2. For a buffer created with a positive \<open>maxSize\<close> \<open>m\<close>, adding more than \<open>m\<close>
  pairwise distinct entries that all pass \<open>validate\<close> leaves exactly \<open>m\<close> entries:
  the last \<open>m\<close> of the entries added, in the order they were added.
\<close>

theorem add_distinct_keeps_most_recent:
  assumes "createHistory (Some opt) = Inr s0" and "maxSize opt = Some m" and "0 < m"
    and "distinct es" and "\<forall>e\<in>set es. callValidate (s_validate s0) e = Inr True"
    and "m < int (length es)"
  shows "s_entries (addAll es s0) = drop (length es - nat m) es \<and>
         int (length_h (addAll es s0)) = m"
proof -
  from assms(1,2) have "s_maxSize s0 = Some m" "s_entries s0 = []"
    by (auto dest!: createHistory_Inr)
  then have "s_entries (addAll es s0) = drop (length es - nat m) es"
    using assms(3,4,5) by (simp add: addAll_fresh_distinct)
  then show ?thesis using assms(3,6) by (simp add: length_h_def)
qed

theorem add_distinct_keeps_most_recent_witness:
  "createHistory (Some (onlyMaxSize 2)) = Inr (fresh 2) \<and>
   maxSize (onlyMaxSize 2) = Some 2 \<and> (0::int) < 2 \<and>
   distinct [''entry1'', ''entry2'', ''entry3''] \<and>
   callValidate (s_validate (fresh 2)) ''entry1'' = Inr True \<and>
   callValidate (s_validate (fresh 2)) ''entry2'' = Inr True \<and>
   callValidate (s_validate (fresh 2)) ''entry3'' = Inr True \<and>
   2 < int (length [''entry1'', ''entry2'', ''entry3'']) \<and>
   s_entries (addAll [''entry1'', ''entry2'', ''entry3''] (fresh 2)) = [''entry2'', ''entry3''] \<and>
   int (length_h (addAll [''entry1'', ''entry2'', ''entry3''] (fresh 2))) = 2"
proof -
  have h1: "createHistory (Some (onlyMaxSize 2)) = Inr (fresh 2)"
    by (rule createHistory_onlyMaxSize)
  have h2: "maxSize (onlyMaxSize 2) = Some 2" by simp
  have h3: "(0::int) < 2" by simp
  have h4: "distinct [''entry1'', ''entry2'', ''entry3'']" by simp
  have h5: "\<forall>e\<in>set [''entry1'', ''entry2'', ''entry3''].
      callValidate (s_validate (fresh 2)) e = Inr True"
    by (simp add: callValidate_def)
  have h6: "2 < int (length [''entry1'', ''entry2'', ''entry3''])" by simp
  show ?thesis
    using h1 h2 h3 h4 h5 h6 add_distinct_keeps_most_recent [OF h1 h2 h3 h4 h5 h6] by simp
qed

subsection \<open>C3: re-adding a stored entry\<close>

text \<open>
  Claim C3. In a buffer holding fewer than \<open>maxSize\<close> entries, adding a valid entry
  \<open>e\<close> that is already stored yields the other entries in their old order followed by
  \<open>e\<close>: the length does not grow (it is unchanged when no entry was stored twice) and
  the set of stored entries is the same, so nothing else is evicted. In particular, on
  a buffer created with capacity at least 2, the calls \<open>add a; add b; add b; add a\<close>
  with two different valid entries leave 2 entries.
\<close>

theorem add_present_moves_to_end:
  "(callValidate (s_validate s) e = Inr True \<and> e \<in> set (s_entries s) \<and>
    s_maxSize s = Some m \<and> int (length (s_entries s)) < m \<longrightarrow>
      s_entries (snd (add e s)) = filter (\<lambda>x. x \<noteq> e) (s_entries s) @ [e] \<and>
      length (s_entries (snd (add e s))) \<le> length (s_entries s) \<and>
      (distinct (s_entries s) \<longrightarrow>
         length (s_entries (snd (add e s))) = length (s_entries s)) \<and>
      set (s_entries (snd (add e s))) = set (s_entries s)) \<and>
   (createHistory (Some opt) = Inr s0 \<and> maxSize opt = Some k \<and> 2 \<le> k \<and> a \<noteq> b \<and>
    callValidate (s_validate s0) a = Inr True \<and> callValidate (s_validate s0) b = Inr True \<longrightarrow>
      length_h (addAll [a, b, b, a] s0) = 2)"
proof (intro conjI impI)
  assume h: "callValidate (s_validate s) e = Inr True \<and> e \<in> set (s_entries s) \<and>
    s_maxSize s = Some m \<and> int (length (s_entries s)) < m"
  then have eq: "s_entries (snd (add e s)) = filter (\<lambda>x. x \<noteq> e) (s_entries s) @ [e]"
    by (simp add: add_present_entries)
  then show "s_entries (snd (add e s)) = filter (\<lambda>x. x \<noteq> e) (s_entries s) @ [e]" .
  from h have mem: "e \<in> set (s_entries s)" by simp
  then have lt: "length (filter (\<lambda>x. x \<noteq> e) (s_entries s)) < length (s_entries s)"
    by (rule length_filter_less) simp
  then show "length (s_entries (snd (add e s))) \<le> length (s_entries s)"
    by (simp add: eq)
  from h show "set (s_entries (snd (add e s))) = set (s_entries s)"
    by (auto simp: eq)
  assume d: "distinct (s_entries s)"
  have "length (filter (\<lambda>x. x \<noteq> e) (s_entries s)) +
        length (filter (\<lambda>x. \<not> x \<noteq> e) (s_entries s)) = length (s_entries s)"
    by (rule sum_length_filter_compl)
  moreover have "length (filter (\<lambda>x. x = e) (s_entries s)) = 1"
    using d h by (simp add: distinct_length_filter)
  ultimately show "length (s_entries (snd (add e s))) = length (s_entries s)"
    by (simp add: eq)
next
  assume h: "createHistory (Some opt) = Inr s0 \<and> maxSize opt = Some k \<and> 2 \<le> k \<and> a \<noteq> b \<and>
    callValidate (s_validate s0) a = Inr True \<and> callValidate (s_validate s0) b = Inr True"
  then have s0: "s_maxSize s0 = Some k" "s_entries s0 = []"
    by (auto dest!: createHistory_Inr)
  from h have v: "callValidate (s_validate s0) a = Inr True"
    "callValidate (s_validate s0) b = Inr True" "a \<noteq> b" "2 \<le> k" by simp_all
  have 1: "s_entries (snd (add a s0)) = [a]"
    using v s0 by (simp add: add_valid_entries atCapacity_def)
  have 2: "s_entries (snd (add b (snd (add a s0)))) = [a, b]"
    using v s0 by (simp add: add_valid_entries add_settings atCapacity_def 1)
  have 3: "s_entries (snd (add b (snd (add b (snd (add a s0)))))) = [a, b]"
    using v s0 by (simp add: add_valid_entries add_settings atCapacity_def 2)
  have 4: "s_entries (snd (add a (snd (add b (snd (add b (snd (add a s0)))))))) = [b, a]"
    using v s0 by (simp add: add_valid_entries add_settings atCapacity_def 3)
  then show "length_h (addAll [a, b, b, a] s0) = 2"
    by (simp add: addAll_def length_h_def)
qed

theorem add_present_moves_to_end_witness:
  "callValidate (s_validate ((fresh 3)\<lparr>s_entries := [''a'', ''b'']\<rparr>)) ''a'' = Inr True \<and>
   ''a'' \<in> set (s_entries ((fresh 3)\<lparr>s_entries := [''a'', ''b'']\<rparr>)) \<and>
   s_maxSize ((fresh 3)\<lparr>s_entries := [''a'', ''b'']\<rparr>) = Some 3 \<and>
   int (length (s_entries ((fresh 3)\<lparr>s_entries := [''a'', ''b'']\<rparr>))) < 3 \<and>
   distinct (s_entries ((fresh 3)\<lparr>s_entries := [''a'', ''b'']\<rparr>)) \<and>
   s_entries (snd (add ''a'' ((fresh 3)\<lparr>s_entries := [''a'', ''b'']\<rparr>))) = [''b'', ''a''] \<and>
   length (s_entries (snd (add ''a'' ((fresh 3)\<lparr>s_entries := [''a'', ''b'']\<rparr>)))) = 2 \<and>
   set (s_entries (snd (add ''a'' ((fresh 3)\<lparr>s_entries := [''a'', ''b'']\<rparr>)))) =
     {''a'', ''b''} \<and>
   createHistory (Some (onlyMaxSize 10)) = Inr (fresh 10) \<and>
   maxSize (onlyMaxSize 10) = Some 10 \<and> (2::int) \<le> 10 \<and> ''first'' \<noteq> ''second'' \<and>
   callValidate (s_validate (fresh 10)) ''first'' = Inr True \<and>
   callValidate (s_validate (fresh 10)) ''second'' = Inr True \<and>
   length_h (addAll [''first'', ''second'', ''second'', ''first''] (fresh 10)) = 2"
proof -
  have h: "createHistory (Some (onlyMaxSize 10)) = Inr (fresh 10)"
    by (rule createHistory_onlyMaxSize)
  show ?thesis
    using h add_present_moves_to_end [of "(fresh 3)\<lparr>s_entries := [''a'', ''b'']\<rparr>" "''a''" 3
                   "onlyMaxSize 10" "fresh 10" 10 "''first''" "''second''"]
    by (simp add: insert_commute callValidate_def)
qed

subsection \<open>C4: what the five movements return and do\<close>

text \<open>
  Claim C4. In every state, and so in every state whose cursor lies between \<open>-1\<close> and
  the number of entries: \<open>prev\<close> returns true exactly when the cursor is positive and
  then lowers it by one, else leaves it; \<open>next\<close> returns true exactly when the cursor
  differs from the number of entries and then raises it by one, else leaves it;
  \<open>first\<close>, \<open>last\<close> and \<open>pastLast\<close> return true exactly when there is an entry, and
  set the cursor to \<open>0\<close>, to the last index and to the number of entries when there is
  one, to \<open>-1\<close> when there is none, whatever the cursor was; none of the five changes
  the entries.
\<close>

theorem move_results:
  "fst (movePrev s) = (0 < s_index s) \<and>
   s_index (snd (movePrev s)) = (if fst (movePrev s) then s_index s - 1 else s_index s) \<and>
   fst (moveNext s) = (s_index s \<noteq> int (length (s_entries s))) \<and>
   s_index (snd (moveNext s)) = (if fst (moveNext s) then s_index s + 1 else s_index s) \<and>
   fst (moveFirst s) = (0 < length (s_entries s)) \<and>
   s_index (snd (moveFirst s)) = (if 0 < length (s_entries s) then 0 else - 1) \<and>
   fst (moveLast s) = (0 < length (s_entries s)) \<and>
   s_index (snd (moveLast s)) =
     (if 0 < length (s_entries s) then int (length (s_entries s)) - 1 else - 1) \<and>
   fst (movePastLast s) = (0 < length (s_entries s)) \<and>
   s_index (snd (movePastLast s)) =
     (if 0 < length (s_entries s) then int (length (s_entries s)) else - 1) \<and>
   s_entries (snd (movePrev s)) = s_entries s \<and>
   s_entries (snd (moveNext s)) = s_entries s \<and>
   s_entries (snd (moveFirst s)) = s_entries s \<and>
   s_entries (snd (moveLast s)) = s_entries s \<and>
   s_entries (snd (movePastLast s)) = s_entries s"
  by (simp add: movePrev_def moveNext_def moveFirst_def moveLast_def movePastLast_def)

theorem move_results_witness:
  "fst (movePrev ((fresh 3)\<lparr>s_entries := [''a'', ''b''], s_index := 2\<rparr>)) \<and>
   s_index (snd (movePrev ((fresh 3)\<lparr>s_entries := [''a'', ''b''], s_index := 2\<rparr>))) = 1 \<and>
   \<not> fst (moveNext ((fresh 3)\<lparr>s_entries := [''a'', ''b''], s_index := 2\<rparr>)) \<and>
   s_index (snd (moveNext ((fresh 3)\<lparr>s_entries := [''a'', ''b''], s_index := 2\<rparr>))) = 2 \<and>
   fst (moveFirst ((fresh 3)\<lparr>s_entries := [''a'', ''b''], s_index := 2\<rparr>)) \<and>
   s_index (snd (moveFirst ((fresh 3)\<lparr>s_entries := [''a'', ''b''], s_index := 2\<rparr>))) = 0 \<and>
   fst (moveLast ((fresh 3)\<lparr>s_entries := [''a'', ''b''], s_index := 2\<rparr>)) \<and>
   s_index (snd (moveLast ((fresh 3)\<lparr>s_entries := [''a'', ''b''], s_index := 2\<rparr>))) = 1 \<and>
   fst (movePastLast ((fresh 3)\<lparr>s_entries := [''a'', ''b''], s_index := 2\<rparr>)) \<and>
   s_index (snd (movePastLast ((fresh 3)\<lparr>s_entries := [''a'', ''b''], s_index := 2\<rparr>))) = 2 \<and>
   \<not> fst (movePastLast (fresh 3)) \<and> s_index (snd (movePastLast (fresh 3))) = - 1"
  using move_results [of "(fresh 3)\<lparr>s_entries := [''a'', ''b''], s_index := 2\<rparr>"]
    move_results [of "fresh 3"]
  by simp

subsection \<open>C5: the cursor after add\<close>



subsection \<open>C6: capacity zero\<close>

text \<open>
  Claim C6 says that a buffer created with \<open>maxSize = 0\<close> is accepted and stays empty
  under every sequence of \<open>add\<close> calls. The creation is accepted, but the buffer does
  not stay empty: the test \<^verbatim>\<open>_entries.length >= _maxSize\<close> holds on the empty array,
  \<^verbatim>\<open>shift\<close> removes nothing from it, and the \<^verbatim>\<open>push\<close> that follows stores the entry. The
  buffer then behaves as one of capacity 1 (\<open>add_valid_nonempty\<close>,
  \<open>add_new_full_same_length\<close>). The interface documents \<^verbatim>\<open>maxSize\<close> as the
  "maximum number of entries to store" and \<^verbatim>\<open>add\<close> as trimming the list "to remain
  within the specified max size".
\<close>

theorem maxSize_zero_stores_an_entry:
  "createHistory (Some (onlyMaxSize 0)) = Inr (fresh 0) \<and>
   length_h (fresh 0) = 0 \<and>
   fst (add ''entry1'' (fresh 0)) = Inr () \<and>
   s_entries (snd (add ''entry1'' (fresh 0))) = [''entry1''] \<and>
   length_h (snd (add ''entry1'' (fresh 0))) = 1 \<and>
   s_entries (snd (add ''entry2'' (snd (add ''entry1'' (fresh 0))))) = [''entry2'']"
  by (simp add: eval_defs)

subsection \<open>C7: lowering the capacity\<close>

text \<open>
  Claim C7 says that a successful \<open>options\<close> call leaves entries and cursor unchanged,
  and that after one that lowers \<open>maxSize\<close> below the number of entries every later
  \<open>add\<close> of a valid entry leaves at most the new \<open>maxSize\<close> entries. The first half
  holds (\<open>setOptions_keeps\<close>). The second does not: \<open>add\<close> evicts at most one entry
  (\<open>add_new_full_same_length\<close>), so with three entries stored and \<open>maxSize\<close> lowered to 1,
  adding a fourth leaves three.
  The interface documents \<^verbatim>\<open>add\<close> as one that "automatically trims the list to remain
  within the specified max size".
\<close>

theorem add_after_shrink_exceeds_maxSize:
  "createHistory (Some (onlyMaxSize 3)) = Inr (fresh 3) \<and>
   s_entries (run [Add ''a'', Add ''b'', Add ''c''] (fresh 3)) = [''a'', ''b'', ''c''] \<and>
   invoke (Options (Some (onlyMaxSize 1))) (run [Add ''a'', Add ''b'', Add ''c''] (fresh 3)) =
     (Inr Void, (run [Add ''a'', Add ''b'', Add ''c''] (fresh 3))\<lparr>s_maxSize := Some 1\<rparr>) \<and>
   callValidate
     (s_validate (run [Add ''a'', Add ''b'', Add ''c'', Options (Some (onlyMaxSize 1))] (fresh 3)))
     ''d'' = Inr True \<and>
   fst (invoke (Add ''d'')
     (run [Add ''a'', Add ''b'', Add ''c'', Options (Some (onlyMaxSize 1))] (fresh 3))) =
     Inr Void \<and>
   s_maxSize (run [Add ''a'', Add ''b'', Add ''c'', Options (Some (onlyMaxSize 1)), Add ''d'']
     (fresh 3)) = Some 1 \<and>
   s_entries (run [Add ''a'', Add ''b'', Add ''c'', Options (Some (onlyMaxSize 1)), Add ''d'']
     (fresh 3)) = [''b'', ''c'', ''d'']"
  by (simp add: eval_defs)

subsection \<open>C8: the cursor stays in range\<close>

text \<open>
  Claim C8. Starting from a buffer that \<open>createHistory\<close> returned, after any sequence
  of calls of the interface (\<open>add\<close>, \<open>options\<close> whether it throws or not, \<open>current\<close>,
  \<open>length\<close> and the five movements) the cursor is at least \<open>-1\<close> and at most the
  number of entries.
\<close>

theorem cursor_in_range:
  assumes "createHistory opts = Inr s0"
  shows "- 1 \<le> s_index (run cs s0) \<and>
         s_index (run cs s0) \<le> int (length (s_entries (run cs s0)))"
proof -
  from assms have "cursorInRange s0"
    by (auto dest!: createHistory_Inr simp: cursorInRange_def)
  then have "cursorInRange (run cs s0)" by (rule run_cursorInRange)
  then show ?thesis by (simp add: cursorInRange_def)
qed

theorem cursor_in_range_witness:
  "createHistory (Some (onlyMaxSize 2)) = Inr (fresh 2) \<and>
   - 1 \<le> s_index (run [Add ''a'', MovePrev, Options None, Add ''b'', Add ''c'', MoveFirst,
                         MoveNext, MoveNext, MoveNext, Current, Length] (fresh 2)) \<and>
   s_index (run [Add ''a'', MovePrev, Options None, Add ''b'', Add ''c'', MoveFirst, MoveNext,
                 MoveNext, MoveNext, Current, Length] (fresh 2))
     \<le> int (length (s_entries (run [Add ''a'', MovePrev, Options None, Add ''b'', Add ''c'',
           MoveFirst, MoveNext, MoveNext, MoveNext, Current, Length] (fresh 2))))"
proof -
  have h: "createHistory (Some (onlyMaxSize 2)) = Inr (fresh 2)"
    by (rule createHistory_onlyMaxSize)
  show ?thesis
    using h cursor_in_range [OF h, of "[Add ''a'', MovePrev, Options None, Add ''b'', Add ''c'',
      MoveFirst, MoveNext, MoveNext, MoveNext, Current, Length]"]
    by simp
qed

subsection \<open>C9: the errors of the interface\<close>




subsection \<open>C10: a failed options call changes nothing\<close>

text \<open>
  Claim C10. When \<open>setOptions\<close> throws, the variables \<^verbatim>\<open>_maxSize\<close>, \<^verbatim>\<open>_defaultValue\<close>,
  \<^verbatim>\<open>_validate\<close>, \<^verbatim>\<open>_entries\<close> and \<^verbatim>\<open>_index\<close> are as before the call, whether it is
  called directly or through the interface: the test comes before every assignment.
\<close>

theorem failed_setOptions_unchanged:
  "(fst (setOptions opts s) = Inl err \<longrightarrow> snd (setOptions opts s) = s) \<and>
   (fst (invoke (Options opts) s) = Inl err \<longrightarrow> snd (invoke (Options opts) s) = s)"
  by (auto simp: setOptions_def Let_def split: option.splits prod.splits sum.splits)

theorem failed_setOptions_unchanged_witness:
  "fst (setOptions None (fresh 1)) = Inl missingMaxSize \<and>
   snd (setOptions None (fresh 1)) = fresh 1 \<and>
   fst (invoke (Options (Some \<lparr>maxSize = None, defaultValue = Some ''d'', validate = None\<rparr>))
     (fresh 1)) = Inl missingMaxSize \<and>
   snd (invoke (Options (Some \<lparr>maxSize = None, defaultValue = Some ''d'', validate = None\<rparr>))
     (fresh 1)) = fresh 1"
proof -
  have h1: "fst (setOptions None (fresh 1)) = Inl missingMaxSize"
    by (simp add: setOptions_def)
  have h2: "fst (invoke (Options (Some \<lparr>maxSize = None, defaultValue = Some ''d'',
     validate = None\<rparr>)) (fresh 1)) = Inl missingMaxSize"
    by (simp add: setOptions_def)
  show ?thesis
    using h1 h2 failed_setOptions_unchanged [of None "fresh 1" missingMaxSize]
      failed_setOptions_unchanged [of "Some \<lparr>maxSize = None, defaultValue = Some ''d'',
        validate = None\<rparr>" "fresh 1" missingMaxSize]
    by simp
qed

end
